theory Spec2Isabelle
  imports Main "HOL-Library.Sublist" "HOL-Library.Multiset"
begin

section \<open>DAA Mother Server: the conversation log and the chat route of server.js\<close>

text \<open>
  The theory embeds the two database helpers (\<open>getGlobalHistoryFromDB\<close>, \<open>saveToDB\<close>) and
  the two route handlers \<open>GET /api/models\<close> and \<open>POST /api/chat\<close> of \<^verbatim>\<open>src/server.js\<close>.
  Everything outside the process (the SQLite table, the Ollama and Gemini replies) is an
  explicit input: the table is a value of type \<open>store\<close> that is passed in and returned, and
  the replies of the two backends are read from an environment record. Each handler
  returns the calls it issued, in program order, as a list of \<open>effect\<close>s.
\<close>

subsection \<open>JavaScript strings and truthiness\<close>

text \<open>
  Strings are byte lists (UTF-8). A property that may be absent (\<^verbatim>\<open>undefined\<close> or
  \<^verbatim>\<open>null\<close>) is a \<open>string option\<close>. A value is truthy when it is present and not the
  empty string.
\<close>

definition truthy :: "string option \<Rightarrow> bool" where
  "truthy v = (case v of None \<Rightarrow> False | Some s \<Rightarrow> s \<noteq> [])"

text \<open>\<^verbatim>\<open>v || d\<close> for a string default \<open>d\<close>.\<close>

definition or_default :: "string option \<Rightarrow> string \<Rightarrow> string" where
  "or_default v d = (case v of None \<Rightarrow> d | Some s \<Rightarrow> if s = [] then d else s)"

text \<open>\<^verbatim>\<open>v || null\<close>.\<close>

definition or_null :: "string option \<Rightarrow> string option" where
  "or_null v = (case v of None \<Rightarrow> None | Some s \<Rightarrow> if s = [] then None else Some s)"

text \<open>
  \<^verbatim>\<open>String.prototype.toLowerCase\<close>, on the letters A to Z; every other byte is kept. The
  three keywords the chat route looks for are made of ASCII letters and a space.
\<close>

definition lower_char :: "char \<Rightarrow> char" where
  "lower_char c =
     (case map_of (zip ''ABCDEFGHIJKLMNOPQRSTUVWXYZ'' ''abcdefghijklmnopqrstuvwxyz'') c of
        Some d \<Rightarrow> d
      | None \<Rightarrow> c)"

definition toLowerCase :: "string \<Rightarrow> string" where
  "toLowerCase s = map lower_char s"

text \<open>\<^verbatim>\<open>s.includes(k)\<close>: \<open>k\<close> occurs in \<open>s\<close> as a contiguous run.\<close>

definition js_includes :: "string \<Rightarrow> string \<Rightarrow> bool" where
  "js_includes s k = sublist k s"

text \<open>\<^verbatim>\<open>s.replace(pat, rep)\<close> with a string pattern: the first occurrence only.\<close>

fun replace_first :: "string \<Rightarrow> string \<Rightarrow> string \<Rightarrow> string" where
  "replace_first pat rep [] = (if pat = [] then rep else [])"
| "replace_first pat rep (c # cs) =
     (if prefix pat (c # cs) then rep @ drop (length pat) (c # cs)
      else c # replace_first pat rep cs)"

text \<open>A template literal prints an absent value as the word \<^verbatim>\<open>undefined\<close>.\<close>

definition template :: "string option \<Rightarrow> string" where
  "template v = (case v of None \<Rightarrow> ''undefined'' | Some s \<Rightarrow> s)"

subsection \<open>The history table\<close>

text \<open>
  One row of \<^verbatim>\<open>history\<close>: \<^verbatim>\<open>id INTEGER PRIMARY KEY AUTOINCREMENT, role TEXT, content TEXT,
  image TEXT\<close>. The \<^verbatim>\<open>timestamp\<close> column is never read by the server and is left out.
  \<open>seq\<close> is the largest id handed out so far (SQLite keeps it for an AUTOINCREMENT
  column).
\<close>

record turn =
  t_id :: nat
  t_role :: string
  t_content :: "string option"
  t_image :: "string option"

record store =
  history :: "turn list"
  seq :: nat

definition empty_store :: store where
  "empty_store = \<lparr>history = [], seq = 0\<rparr>"

text \<open>
  \<^verbatim>\<open>saveToDB(role, content, image = null)\<close>:
  \<^verbatim>\<open>INSERT INTO history (role, content, image) VALUES (?, ?, ?)\<close>.
\<close>

definition saveToDB :: "string \<Rightarrow> string option \<Rightarrow> string option \<Rightarrow> store \<Rightarrow> store" where
  "saveToDB role content img s =
     \<lparr>history = history s @ [\<lparr>t_id = seq s + 1, t_role = role, t_content = content, t_image = img\<rparr>],
      seq = seq s + 1\<rparr>"

text \<open>The columns \<^verbatim>\<open>role, content, image\<close> that the outer SELECT returns.\<close>

record hist_msg =
  h_role :: string
  h_content :: "string option"
  h_image :: "string option"

definition project :: "turn \<Rightarrow> hist_msg" where
  "project t = \<lparr>h_role = t_role t, h_content = t_content t, h_image = t_image t\<rparr>"

text \<open>
  \<^verbatim>\<open>SELECT * FROM history ORDER BY id DESC LIMIT n\<close>, and around it
  \<^verbatim>\<open>SELECT role, content, image FROM (...) ORDER BY id ASC\<close>.
\<close>

definition select_desc_limit :: "nat \<Rightarrow> store \<Rightarrow> turn list" where
  "select_desc_limit n s = take n (rev (sort_key t_id (history s)))"

definition select_recent :: "nat \<Rightarrow> store \<Rightarrow> turn list" where
  "select_recent n s = sort_key t_id (select_desc_limit n s)"

datatype error =
    TypeError
  | StoreFault string
  | BackendFault string

definition history_limit :: "bool \<Rightarrow> nat" where
  "history_limit fetchMore = (if fetchMore then 150 else 60)"

text \<open>
  \<^verbatim>\<open>getGlobalHistoryFromDB(fetchMore = false)\<close>. The first argument is the \<^verbatim>\<open>err\<close> that
  \<^verbatim>\<open>db.all\<close> hands to its callback: when present the promise rejects.
\<close>

definition getGlobalHistoryFromDB :: "string option \<Rightarrow> bool \<Rightarrow> store \<Rightarrow> error + hist_msg list" where
  "getGlobalHistoryFromDB err fetchMore s =
     (let limit = history_limit fetchMore in
      case err of
        Some e \<Rightarrow> Inl (StoreFault e)
      | None \<Rightarrow> Inr (map project (select_recent limit s)))"

subsection \<open>The chat route\<close>

record message =
  m_role :: "string option"
  m_content :: "string option"
  m_image :: "string option"

record request =
  messages :: "message list option"
  model :: "string option"

text \<open>What is sent to Ollama: \<^verbatim>\<open>{ role, content, images? }\<close>.\<close>

record ollama_msg =
  o_role :: string
  o_content :: "string option"
  o_images :: "string list option"

text \<open>What is sent to Gemini: \<^verbatim>\<open>{ role, parts }\<close> with text and inline-data parts.\<close>

datatype part =
    Text string
  | InlineData string string

record gemini_content =
  g_role :: string
  g_parts :: "part list"

text \<open>
  The reply of \<^verbatim>\<open>fetch('http://127.0.0.1:11434/api/chat')\<close>: the fetch rejects, or
  \<^verbatim>\<open>response.json()\<close> rejects, or the body parses. Of the parsed body the route reads only
  \<^verbatim>\<open>data.message.content\<close>: \<open>None\<close> is a body without \<^verbatim>\<open>message\<close> (the shape of an
  Ollama error body), \<open>Some None\<close> a message without content. The HTTP status is
  never looked at by the route.
\<close>

datatype ollama_reply =
    OllamaFetchRejects string
  | OllamaJsonRejects string
  | OllamaData "string option option"

text \<open>
  The reply of Gemini: \<^verbatim>\<open>sendMessageStream\<close> rejects, or it yields a stream, which is the
  fragments it emits and how it ends (exhausted, or an error raised by the iterator or by
  \<^verbatim>\<open>chunk.text()\<close> after those fragments).
\<close>

datatype stream_end =
    StreamDone
  | StreamError string

datatype gemini_reply =
    GeminiSendRejects string
  | GeminiStream "string list" stream_end

record chat_env =
  db_err :: "string option"
  persona :: string
  ollama :: ollama_reply
  gemini :: gemini_reply

text \<open>
  The calls the route issues. \<open>ResStatus500Send e\<close> is
  \<^verbatim>\<open>res.status(500).send("Nova Error: " + error.message)\<close> for the caught error \<open>e\<close>.
\<close>

datatype effect =
    DbAll nat
  | DbInsert string "string option" "string option"
  | OllamaChat string "ollama_msg list"
  | GeminiStartChat string string "gemini_content list"
  | GeminiSendMessageStream "part list"
  | ResSetHeader
  | ResWrite string
  | ResEnd
  | ResSend "string option"
  | ResStatus500Send error

text \<open>
  The result of one run of the handler: the table afterwards, the calls in order, and
  the exception that left the handler uncaught, if any.
\<close>

record outcome =
  final :: store
  trace :: "effect list"
  uncaught :: "error option"

text \<open>\<^verbatim>\<open>messages[messages.length - 1]\<close> on an array: \<^verbatim>\<open>undefined\<close> when it is empty.\<close>

definition last_element :: "'a list \<Rightarrow> 'a option" where
  "last_element xs = (if xs = [] then None else Some (last xs))"

definition isSummarize :: "string \<Rightarrow> bool" where
  "isSummarize userText =
     (js_includes userText ''summera'' \<or> js_includes userText ''sammanfatta''
      \<or> js_includes userText ''minns du'')"

text \<open>\<^verbatim>\<open>...(msg.image && { images: [msg.image] })\<close>.\<close>

definition images_field :: "string option \<Rightarrow> string list option" where
  "images_field img = (case img of None \<Rightarrow> None | Some d \<Rightarrow> if d = [] then None else Some [d])"

definition ollama_of_history :: "hist_msg \<Rightarrow> ollama_msg" where
  "ollama_of_history msg =
     \<lparr>o_role = h_role msg, o_content = h_content msg, o_images = images_field (h_image msg)\<rparr>"

text \<open>\<^verbatim>\<open>msg.image ? [{ inlineData: { mimeType: "image/jpeg", data: msg.image } }] : []\<close>.\<close>

definition inline_parts :: "string option \<Rightarrow> part list" where
  "inline_parts img =
     (case img of None \<Rightarrow> [] | Some d \<Rightarrow> if d = [] then [] else [InlineData ''image/jpeg'' d])"

definition gemini_of_history :: "hist_msg \<Rightarrow> gemini_content" where
  "gemini_of_history msg =
     \<lparr>g_role = (if h_role msg = ''assistant'' then ''model'' else ''user''),
      g_parts = Text (or_default (h_content msg) '' '') # inline_parts (h_image msg)\<rparr>"

text \<open>The catch block: the table stays as it is at the throw, and a 500 is sent.\<close>

definition caught :: "store \<Rightarrow> effect list \<Rightarrow> error \<Rightarrow> outcome" where
  "caught s tr e = \<lparr>final = s, trace = tr @ [ResStatus500Send e], uncaught = None\<rparr>"

text \<open>The Ollama branch, entered after the user message was saved.\<close>

definition ollama_handler ::
  "chat_env \<Rightarrow> string \<Rightarrow> hist_msg list \<Rightarrow> message \<Rightarrow> store \<Rightarrow> effect list \<Rightarrow> outcome" where
  "ollama_handler env currentModel chatHistory lastIncoming s tr =
     (let ollamaMessages = map ollama_of_history chatHistory
            @ [\<lparr>o_role = ''user'', o_content = m_content lastIncoming,
                o_images = images_field (m_image lastIncoming)\<rparr>];
          tr1 = tr @ [OllamaChat currentModel ollamaMessages]
      in case ollama env of
           OllamaFetchRejects e \<Rightarrow> caught s tr1 (BackendFault e)
         | OllamaJsonRejects e \<Rightarrow> caught s tr1 (BackendFault e)
         | OllamaData None \<Rightarrow> caught s tr1 TypeError
         | OllamaData (Some aiText) \<Rightarrow>
             \<lparr>final = saveToDB ''assistant'' aiText None s,
              trace = tr1 @ [DbInsert ''assistant'' aiText None, ResSend aiText],
              uncaught = None\<rparr>)"

text \<open>
  The body of \<^verbatim>\<open>for await (const chunk of result.stream)\<close>: the accumulator
  \<^verbatim>\<open>fullAiResp\<close> and the calls issued so far.
\<close>

fun stream_loop :: "string list \<Rightarrow> string \<times> effect list \<Rightarrow> string \<times> effect list" where
  "stream_loop [] acc = acc"
| "stream_loop (chunkText # rest) (fullAiResp, tr) =
     stream_loop rest (fullAiResp @ chunkText, tr @ [ResWrite chunkText])"

text \<open>The Gemini branch, entered after the user message was saved.\<close>

definition gemini_handler ::
  "chat_env \<Rightarrow> string \<Rightarrow> hist_msg list \<Rightarrow> message \<Rightarrow> store \<Rightarrow> effect list \<Rightarrow> outcome" where
  "gemini_handler env currentModel chatHistory lastIncoming s tr =
     (let geminiHistory = map gemini_of_history chatHistory;
          lastParts = Text (or_default (m_content lastIncoming) '' '')
            # inline_parts (m_image lastIncoming);
          tr1 = tr @ [GeminiStartChat currentModel (persona env) geminiHistory,
                      GeminiSendMessageStream lastParts]
      in case gemini env of
           GeminiSendRejects e \<Rightarrow> caught s tr1 (BackendFault e)
         | GeminiStream chunks fin \<Rightarrow>
             (let (fullAiResp, tr2) = stream_loop chunks ([], tr1 @ [ResSetHeader])
              in case fin of
                   StreamError e \<Rightarrow> caught s tr2 (BackendFault e)
                 | StreamDone \<Rightarrow>
                     \<lparr>final = saveToDB ''assistant'' (Some fullAiResp) None s,
                      trace = tr2 @ [DbInsert ''assistant'' (Some fullAiResp) None, ResEnd],
                      uncaught = None\<rparr>))"

text \<open>
  \<^verbatim>\<open>app.post('/api/chat', async (req, res) => ...)\<close>. The first four statements stand
  before the \<^verbatim>\<open>try\<close>: reading \<^verbatim>\<open>messages.length\<close> of an absent \<^verbatim>\<open>messages\<close>, or
  \<^verbatim>\<open>lastIncoming.content\<close> of an absent last element, throws a TypeError that no handler
  catches.
\<close>

definition api_chat :: "chat_env \<Rightarrow> request \<Rightarrow> store \<Rightarrow> outcome" where
  "api_chat env req s =
     (let currentModel = or_default (model req) ''gemini-1.5-flash'' in
      case messages req of
        None \<Rightarrow> \<lparr>final = s, trace = [], uncaught = Some TypeError\<rparr>
      | Some msgs \<Rightarrow>
          (case last_element msgs of
             None \<Rightarrow> \<lparr>final = s, trace = [], uncaught = Some TypeError\<rparr>
           | Some lastIncoming \<Rightarrow>
               (let userText = toLowerCase (or_default (m_content lastIncoming) []);
                    fetchMore = isSummarize userText;
                    tr0 = [DbAll (history_limit fetchMore)]
                in case getGlobalHistoryFromDB (db_err env) fetchMore s of
                     Inl e \<Rightarrow> caught s tr0 e
                   | Inr chatHistory \<Rightarrow>
                       (let s1 = saveToDB ''user'' (m_content lastIncoming)
                                   (or_null (m_image lastIncoming)) s;
                            tr1 = tr0 @ [DbInsert ''user'' (m_content lastIncoming)
                                           (or_null (m_image lastIncoming))]
                        in if \<not> js_includes currentModel ''gemini''
                           then ollama_handler env currentModel chatHistory lastIncoming s1 tr1
                           else gemini_handler env currentModel chatHistory lastIncoming s1 tr1))))"

text \<open>The request carries an incoming message: \<^verbatim>\<open>messages\<close> is an array and not empty.\<close>

definition incoming :: "request \<Rightarrow> message option" where
  "incoming req = (case messages req of None \<Rightarrow> None | Some msgs \<Rightarrow> last_element msgs)"

text \<open>The calls that hand the request to a backend.\<close>

fun is_backend_call :: "effect \<Rightarrow> bool" where
  "is_backend_call (OllamaChat m ms) = True"
| "is_backend_call (GeminiStartChat m p h) = True"
| "is_backend_call (GeminiSendMessageStream ps) = True"
| "is_backend_call e = False"

text \<open>
  The backend call of the route fails: for Ollama the fetch or the JSON parse rejects or
  the body has no \<^verbatim>\<open>message\<close>; for Gemini the send rejects or the stream ends in an error.
\<close>

fun ollama_failed :: "ollama_reply \<Rightarrow> bool" where
  "ollama_failed (OllamaFetchRejects e) = True"
| "ollama_failed (OllamaJsonRejects e) = True"
| "ollama_failed (OllamaData None) = True"
| "ollama_failed (OllamaData (Some t)) = False"

fun gemini_failed :: "gemini_reply \<Rightarrow> bool" where
  "gemini_failed (GeminiSendRejects e) = True"
| "gemini_failed (GeminiStream chunks (StreamError e)) = True"
| "gemini_failed (GeminiStream chunks StreamDone) = False"

definition routes_to_gemini :: "request \<Rightarrow> bool" where
  "routes_to_gemini req = js_includes (or_default (model req) ''gemini-1.5-flash'') ''gemini''"

definition backend_failed :: "chat_env \<Rightarrow> request \<Rightarrow> bool" where
  "backend_failed env req =
     (if routes_to_gemini req then gemini_failed (gemini env) else ollama_failed (ollama env))"

fun is_assistant_insert :: "effect \<Rightarrow> bool" where
  "is_assistant_insert (DbInsert r c i) = (r = ''assistant'')"
| "is_assistant_insert e = False"

text \<open>The fragments written to the caller, in the order of the calls.\<close>

fun forwarded :: "effect list \<Rightarrow> string list" where
  "forwarded [] = []"
| "forwarded (ResWrite t # es) = t # forwarded es"
| "forwarded (e # es) = forwarded es"

text \<open>A sequence of appends, each with its role, content and image.\<close>

fun append_turns :: "store \<Rightarrow> (string \<times> string option \<times> string option) list \<Rightarrow> store" where
  "append_turns s [] = s"
| "append_turns s ((r, c, i) # ts) = append_turns (saveToDB r c i s) ts"

definition as_hist_msg :: "string \<times> string option \<times> string option \<Rightarrow> hist_msg" where
  "as_hist_msg t = (case t of (r, c, i) \<Rightarrow> \<lparr>h_role = r, h_content = c, h_image = i\<rparr>)"

subsection \<open>The model catalogue\<close>

text \<open>
  One entry of the cloud listing: \<^verbatim>\<open>name\<close>, \<^verbatim>\<open>displayName\<close> and
  \<^verbatim>\<open>supportedGenerationMethods\<close>, each of which a reply may lack.
\<close>

record cloud_model =
  c_name :: "string option"
  c_displayName :: "string option"
  c_methods :: "string list option"

text \<open>\<open>CloudData None\<close> is a parsed body without a \<^verbatim>\<open>models\<close> array.\<close>

datatype cloud_reply =
    CloudFetchRejects
  | CloudJsonRejects
  | CloudData "cloud_model list option"

record local_model =
  l_name :: "string option"

datatype local_body =
    LocalJsonRejects
  | LocalData "local_model list option"

text \<open>\<open>LocalResponse ok body\<close>: the fetch resolved with \<^verbatim>\<open>response.ok = ok\<close>.\<close>

datatype local_reply =
    LocalFetchRejects
  | LocalResponse bool local_body

record models_env =
  api_key :: "string option"
  cloud :: cloud_reply
  local_source :: local_reply

record entry =
  e_id :: "string option"
  e_name :: string

definition cloud_label :: string where
  "cloud_label = [CHR 0xE2, CHR 0x98, CHR 0x81, CHR 0xEF, CHR 0xB8, CHR 0x8F, CHR '' '']"

definition local_label :: string where
  "local_label = [CHR 0xF0, CHR 0x9F, CHR 0x8F, CHR 0xA0] @ '' Ollama: ''"

text \<open>
  \<^verbatim>\<open>m.name.includes('gemini') && m.supportedGenerationMethods.includes('generateContent')\<close>:
  a property read of an absent value throws; the second operand is evaluated only when
  the first holds.
\<close>

definition cloud_keep :: "cloud_model \<Rightarrow> error + bool" where
  "cloud_keep m =
     (case c_name m of
        None \<Rightarrow> Inl TypeError
      | Some n \<Rightarrow>
          if js_includes n ''gemini''
          then (case c_methods m of
                  None \<Rightarrow> Inl TypeError
                | Some ms \<Rightarrow> Inr (''generateContent'' \<in> set ms))
          else Inr False)"

fun filter_models :: "cloud_model list \<Rightarrow> error + cloud_model list" where
  "filter_models [] = Inr []"
| "filter_models (m # ms) =
     (case cloud_keep m of
        Inl e \<Rightarrow> Inl e
      | Inr keep \<Rightarrow>
          (case filter_models ms of
             Inl e \<Rightarrow> Inl e
           | Inr rest \<Rightarrow> Inr (if keep then m # rest else rest)))"

text \<open>\<^verbatim>\<open>{ id: m.name.replace('models/', ''), name: `... ${m.displayName}` }\<close>.\<close>

definition cloud_entry :: "cloud_model \<Rightarrow> error + entry" where
  "cloud_entry m =
     (case c_name m of
        None \<Rightarrow> Inl TypeError
      | Some n \<Rightarrow>
          Inr \<lparr>e_id = Some (replace_first ''models/'' [] n),
               e_name = cloud_label @ template (c_displayName m)\<rparr>)"

fun map_entries :: "cloud_model list \<Rightarrow> error + entry list" where
  "map_entries [] = Inr []"
| "map_entries (m # ms) =
     (case cloud_entry m of
        Inl e \<Rightarrow> Inl e
      | Inr x \<Rightarrow>
          (case map_entries ms of
             Inl e \<Rightarrow> Inl e
           | Inr rest \<Rightarrow> Inr (x # rest)))"

text \<open>The body of the first \<^verbatim>\<open>try\<close>, up to the value it would concatenate.\<close>

definition cloud_listing :: "cloud_reply \<Rightarrow> error + entry list" where
  "cloud_listing r =
     (case r of
        CloudFetchRejects \<Rightarrow> Inl (BackendFault ''fetch'')
      | CloudJsonRejects \<Rightarrow> Inl (BackendFault ''json'')
      | CloudData None \<Rightarrow> Inl TypeError
      | CloudData (Some ms) \<Rightarrow>
          (case filter_models ms of
             Inl e \<Rightarrow> Inl e
           | Inr kept \<Rightarrow> map_entries kept))"

text \<open>
  \<^verbatim>\<open>if (GOOGLE_API_KEY) { try { ... allModels = allModels.concat(...) } catch (e) { } }\<close>:
  the list before the block goes in, the list after it comes out.
\<close>

definition cloud_models :: "models_env \<Rightarrow> entry list \<Rightarrow> entry list" where
  "cloud_models env allModels =
     (if truthy (api_key env)
      then (case cloud_listing (cloud env) of
              Inl e \<Rightarrow> allModels
            | Inr es \<Rightarrow> allModels @ es)
      else allModels)"

definition local_entry :: "local_model \<Rightarrow> entry" where
  "local_entry m = \<lparr>e_id = l_name m, e_name = local_label @ template (l_name m)\<rparr>"

text \<open>The body of the second \<^verbatim>\<open>try\<close>; \<open>Inr None\<close> is a response that is not ok.\<close>

definition local_listing :: "local_reply \<Rightarrow> error + entry list option" where
  "local_listing r =
     (case r of
        LocalFetchRejects \<Rightarrow> Inl (BackendFault ''fetch'')
      | LocalResponse ok body \<Rightarrow>
          if ok
          then (case body of
                  LocalJsonRejects \<Rightarrow> Inl (BackendFault ''json'')
                | LocalData None \<Rightarrow> Inl TypeError
                | LocalData (Some ms) \<Rightarrow> Inr (Some (map local_entry ms)))
          else Inr None)"

definition local_models :: "models_env \<Rightarrow> entry list \<Rightarrow> entry list" where
  "local_models env allModels =
     (case local_listing (local_source env) of
        Inl e \<Rightarrow> allModels
      | Inr None \<Rightarrow> allModels
      | Inr (Some es) \<Rightarrow> allModels @ es)"

text \<open>
  \<^verbatim>\<open>app.get('/api/models', ...)\<close>: the status and the array of \<^verbatim>\<open>res.json(allModels)\<close>, or
  the exception that left the handler.
\<close>

definition api_models :: "models_env \<Rightarrow> error + nat \<times> entry list" where
  "api_models env =
     (let allModels = [];
          allModels = cloud_models env allModels;
          allModels = local_models env allModels
      in Inr (200, allModels))"

text \<open>A source contributes nothing: it is skipped, or its block throws, or it is not ok.\<close>

definition cloud_unavailable :: "models_env \<Rightarrow> bool" where
  "cloud_unavailable env = (\<not> truthy (api_key env) \<or> isl (cloud_listing (cloud env)))"

definition local_unavailable :: "models_env \<Rightarrow> bool" where
  "local_unavailable env =
     (isl (local_listing (local_source env)) \<or> local_listing (local_source env) = Inr None)"

subsection \<open>Well-formed tables\<close>

text \<open>
  Ids grow along the table and none exceeds the counter. The empty table is so, and
  an insert keeps it so.
\<close>

definition wf_store :: "store \<Rightarrow> bool" where
  "wf_store s =
     (sorted (map t_id (history s)) \<and> distinct (map t_id (history s))
      \<and> list_all (\<lambda>t. t_id t \<le> seq s) (history s))"

text \<open>The row that saving the incoming message adds to the table \<open>s\<close>.\<close>

definition user_turn :: "store \<Rightarrow> message \<Rightarrow> turn" where
  "user_turn s m =
     \<lparr>t_id = seq s + 1, t_role = ''user'', t_content = m_content m,
      t_image = or_null (m_image m)\<rparr>"

subsection \<open>Names for the values the chat route computes\<close>

text \<open>
  The route computes these inline; they are named here so that the properties can speak
  about them. \<open>currentModel\<close> is \<^verbatim>\<open>model || "gemini-1.5-flash"\<close>, \<open>incoming_limit\<close> the
  LIMIT of the history read for an incoming message, \<open>chat_window\<close> the rows that read
  returns on the table \<open>s\<close>.
\<close>

definition currentModel :: "request \<Rightarrow> string" where
  "currentModel req = or_default (model req) ''gemini-1.5-flash''"

definition incoming_limit :: "message \<Rightarrow> nat" where
  "incoming_limit m = history_limit (isSummarize (toLowerCase (or_default (m_content m) [])))"

definition chat_window :: "message \<Rightarrow> store \<Rightarrow> hist_msg list" where
  "chat_window m s = map project (select_recent (incoming_limit m) s)"

text \<open>The two calls that start every dispatched request, and the table after them.\<close>

definition first_calls :: "message \<Rightarrow> effect list" where
  "first_calls m =
     [DbAll (incoming_limit m), DbInsert ''user'' (m_content m) (or_null (m_image m))]"

definition ollama_request :: "message \<Rightarrow> store \<Rightarrow> ollama_msg list" where
  "ollama_request m s =
     map ollama_of_history (chat_window m s)
       @ [\<lparr>o_role = ''user'', o_content = m_content m, o_images = images_field (m_image m)\<rparr>]"

definition gemini_calls :: "chat_env \<Rightarrow> request \<Rightarrow> message \<Rightarrow> store \<Rightarrow> effect list" where
  "gemini_calls env req m s =
     [GeminiStartChat (currentModel req) (persona env) (map gemini_of_history (chat_window m s)),
      GeminiSendMessageStream (Text (or_default (m_content m) '' '') # inline_parts (m_image m))]"

subsection \<open>Sample requests and replies\<close>

definition sample_message :: message where
  "sample_message = \<lparr>m_role = Some ''user'', m_content = Some ''hej'', m_image = None\<rparr>"

text \<open>No \<^verbatim>\<open>model\<close> is given, so the request goes to \<^verbatim>\<open>gemini-1.5-flash\<close>.\<close>

definition sample_request :: request where
  "sample_request = \<lparr>messages = Some [sample_message], model = None\<rparr>"

definition local_request :: request where
  "local_request = \<lparr>messages = Some [sample_message], model = Some ''llama3''\<rparr>"

text \<open>Ollama is unreachable; the Gemini stream emits one fragment and then fails.\<close>

definition broken_env :: chat_env where
  "broken_env =
     \<lparr>db_err = None, persona = ''persona'',
      ollama = OllamaFetchRejects ''ECONNREFUSED'',
      gemini = GeminiStream [''Hel''] (StreamError ''aborted'')\<rparr>"

text \<open>Both backends answer.\<close>

definition working_env :: chat_env where
  "working_env =
     \<lparr>db_err = None, persona = ''persona'',
      ollama = OllamaData (Some (Some ''hej du'')),
      gemini = GeminiStream [''hej'', '' du''] StreamDone\<rparr>"



text \<open>A message with an image and an empty text, and a table whose two rows have no text.\<close>

definition blank_message :: message where
  "blank_message = \<lparr>m_role = Some ''user'', m_content = Some [], m_image = Some ''QUJD''\<rparr>"



subsection \<open>What the caller and the backends see\<close>



fun is_ollama_call :: "effect \<Rightarrow> bool" where
  "is_ollama_call (OllamaChat m ms) = True"
| "is_ollama_call e = False"

fun is_gemini_call :: "effect \<Rightarrow> bool" where
  "is_gemini_call (GeminiStartChat m p h) = True"
| "is_gemini_call (GeminiSendMessageStream ps) = True"
| "is_gemini_call e = False"



definition unknown_request :: request where
  "unknown_request = \<lparr>messages = Some [blank_message], model = Some ''not-a-model''\<rparr>"

text \<open>No key and no Ollama; and a key, a cloud listing of two models and one local model.\<close>

definition offline_models_env :: models_env where
  "offline_models_env =
     \<lparr>api_key = None, cloud = CloudFetchRejects, local_source = LocalFetchRejects\<rparr>"

definition online_models_env :: models_env where
  "online_models_env =
     \<lparr>api_key = Some ''key'',
      cloud = CloudData (Some
        [\<lparr>c_name = Some ''models/gemini-pro'', c_displayName = Some ''Gemini Pro'',
          c_methods = Some [''generateContent'', ''countTokens'']\<rparr>,
         \<lparr>c_name = Some ''models/embedding-001'', c_displayName = Some ''Embedding'',
          c_methods = None\<rparr>]),
      local_source = LocalResponse True (LocalData (Some [\<lparr>l_name = Some ''llama3''\<rparr>]))\<rparr>"

section \<open>Properties\<close>

subsection \<open>Sorting a table with ascending ids\<close>

lemma sort_key_sorted: "sorted (map f xs) \<Longrightarrow> sort_key f xs = xs"
  by (induction xs) (simp_all add: insort_is_Cons)

lemma filter_key_single:
  "distinct (map f ys) \<Longrightarrow> k \<in> set ys \<Longrightarrow> filter (\<lambda>x. f k = f x) ys = [k]"
  by (induction ys) (auto simp: filter_empty_conv image_iff)

lemma sort_key_rev_strict:
  assumes "sorted (map f xs)" and d: "distinct (map f xs)"
  shows "sort_key f (rev xs) = xs"
proof (rule properties_for_sort_key)
  show "mset xs = mset (rev xs)" by simp
next
  fix k assume k: "k \<in> set xs"
  have "filter (\<lambda>x. f k = f x) (rev xs) = [k]"
    using filter_key_single [of f "rev xs" k] d k by (simp add: rev_map [symmetric])
  then show "filter (\<lambda>x. f k = f x) xs = filter (\<lambda>x. f k = f x) (rev xs)"
    using filter_key_single [OF d k] by simp
next
  show "sorted (map f xs)" by (rule assms(1))
qed

lemma select_recent_wf:
  assumes "wf_store s"
  shows "select_recent k s = drop (length (history s) - k) (history s)"
proof -
  let ?xs = "history s"
  let ?ys = "drop (length ?xs - k) ?xs"
  have srt: "sorted (map t_id ?xs)" and dst: "distinct (map t_id ?xs)"
    using assms by (simp_all add: wf_store_def)
  have "select_desc_limit k s = rev ?ys"
    by (simp add: select_desc_limit_def sort_key_sorted [OF srt] take_rev)
  moreover have "sorted (map t_id ?ys)"
    using srt by (simp add: drop_map [symmetric] sorted_wrt_drop)
  moreover have "distinct (map t_id ?ys)"
    using dst by (simp add: drop_map [symmetric])
  ultimately show ?thesis
    by (simp add: select_recent_def sort_key_rev_strict)
qed

lemma wf_empty_store: "wf_store empty_store"
  by (simp add: wf_store_def empty_store_def)

lemma wf_saveToDB: "wf_store s \<Longrightarrow> wf_store (saveToDB r c i s)"
  by (auto simp: wf_store_def saveToDB_def sorted_append list_all_iff)

lemma wf_append_turns: "wf_store s \<Longrightarrow> wf_store (append_turns s ts)"
  by (induction s ts rule: append_turns.induct) (simp_all add: wf_saveToDB)

lemma ids_append_turns:
  "map t_id (history (append_turns s ts)) = map t_id (history s) @ [seq s + 1 ..< seq s + 1 + length ts]"
proof (induction s ts rule: append_turns.induct)
  case (1 s)
  then show ?case by simp
next
  case (2 s r c i ts)
  have "[seq s + 1 ..< seq s + 1 + length ((r, c, i) # ts)]
      = (seq s + 1) # [seq s + 1 + 1 ..< seq s + 1 + 1 + length ts]"
    by (simp add: upt_rec)
  with 2 show ?case by (simp add: saveToDB_def)
qed

lemma rows_append_turns:
  "map project (history (append_turns s ts)) = map project (history s) @ map as_hist_msg ts"
  by (induction s ts rule: append_turns.induct)
     (simp_all add: saveToDB_def project_def as_hist_msg_def)

lemma length_append_turns: "length (history (append_turns s ts)) = length (history s) + length ts"
  by (induction s ts rule: append_turns.induct) (simp_all add: saveToDB_def)

text \<open>
  Claim C4. After any sequence \<open>ts\<close> of appends to the empty table, the history read with
  limit \<open>k \<le> length ts\<close> returns exactly the last \<open>k\<close> rows: they are the tail of the table,
  their ids are the \<open>k\<close> largest in ascending order, and their columns are those of the
  last \<open>k\<close> appended turns, oldest first. \<open>getGlobalHistoryFromDB\<close> returns that tail for
  its limit, and as it is a function of the table alone, a second read of the same table
  returns the same sequence.
\<close>

theorem recent_returns_last_turns:
  assumes "k \<le> length ts"
  shows "select_recent k (append_turns empty_store ts)
           = drop (length ts - k) (history (append_turns empty_store ts))
       \<and> map t_id (select_recent k (append_turns empty_store ts)) = [length ts - k + 1 ..< length ts + 1]
       \<and> map project (select_recent k (append_turns empty_store ts))
           = drop (length ts - k) (map as_hist_msg ts)
       \<and> length (select_recent k (append_turns empty_store ts)) = k
       \<and> getGlobalHistoryFromDB None fetchMore (append_turns empty_store ts)
           = Inr (drop (length ts - history_limit fetchMore) (map as_hist_msg ts))
       \<and> (let first_read = getGlobalHistoryFromDB None fetchMore (append_turns empty_store ts);
               second_read = getGlobalHistoryFromDB None fetchMore (append_turns empty_store ts)
           in first_read = second_read)"
proof -
  let ?s = "append_turns empty_store ts"
  have wf: "wf_store ?s" by (rule wf_append_turns [OF wf_empty_store])
  have len: "length (history ?s) = length ts"
    by (simp add: length_append_turns empty_store_def)
  have sel: "\<And>n. select_recent n ?s = drop (length ts - n) (history ?s)"
    using select_recent_wf [OF wf] len by simp
  have ids: "map t_id (history ?s) = [1 ..< 1 + length ts]"
    using ids_append_turns [of empty_store ts] by (simp add: empty_store_def)
  have rows: "map project (history ?s) = map as_hist_msg ts"
    using rows_append_turns [of empty_store ts] by (simp add: empty_store_def)
  have "map t_id (select_recent k ?s) = drop (length ts - k) [1 ..< 1 + length ts]"
    by (simp only: sel drop_map [symmetric] ids)
  also have "\<dots> = [1 + (length ts - k) ..< 1 + length ts]"
    by (rule drop_upt)
  finally have c2: "map t_id (select_recent k ?s) = [length ts - k + 1 ..< length ts + 1]"
    by (simp only: add.commute)
  have c3: "\<And>n. map project (select_recent n ?s) = drop (length ts - n) (map as_hist_msg ts)"
    by (simp only: sel drop_map [symmetric] rows)
  have c4: "length (select_recent k ?s) = k"
    using assms by (simp add: sel len)
  have c5: "getGlobalHistoryFromDB None fetchMore ?s
              = Inr (drop (length ts - history_limit fetchMore) (map as_hist_msg ts))"
    by (simp add: getGlobalHistoryFromDB_def c3)
  show ?thesis
    unfolding Let_def using sel [of k] c2 c3 [of k] c4 c5 by blast
qed

theorem recent_returns_last_turns_witness:
  "(1::nat) \<le> length [(''user'', Some ''hej'', None), (''assistant'', Some ''hej du'', None :: string option)]
   \<and> map project (select_recent 1 (append_turns empty_store
      [(''user'', Some ''hej'', None), (''assistant'', Some ''hej du'', None)]))
    = [\<lparr>h_role = ''assistant'', h_content = Some ''hej du'', h_image = None\<rparr>]"
proof -
  let ?ts = "[(''user'', Some ''hej'', None), (''assistant'', Some ''hej du'', None :: string option)]"
  have h: "(1::nat) \<le> length ?ts"
    by simp
  from recent_returns_last_turns [OF h, of True]
  have "map project (select_recent 1 (append_turns empty_store ?ts))
          = drop (length ?ts - 1) (map as_hist_msg ?ts)"
    by blast
  then show ?thesis
    by (simp add: as_hist_msg_def)
qed


subsection \<open>The outcomes of the chat route\<close>

lemma stream_loop_eq:
  "stream_loop chunks (acc, tr) = (acc @ concat chunks, tr @ map ResWrite chunks)"
  by (induction chunks arbitrary: acc tr) simp_all

lemma incoming_None:
  "incoming req = None \<Longrightarrow> api_chat env req s = \<lparr>final = s, trace = [], uncaught = Some TypeError\<rparr>"
  by (simp add: incoming_def api_chat_def Let_def split: option.splits)

lemma store_fault:
  assumes "incoming req = Some m" and "db_err env = Some e"
  shows "api_chat env req s
           = \<lparr>final = s, trace = [DbAll (incoming_limit m), ResStatus500Send (StoreFault e)],
              uncaught = None\<rparr>"
  using assms
  by (auto simp: incoming_def api_chat_def Let_def getGlobalHistoryFromDB_def caught_def
      incoming_limit_def split: option.splits)

lemma dispatch:
  assumes "incoming req = Some m" and "db_err env = None"
  shows "api_chat env req s =
           (if routes_to_gemini req
            then gemini_handler env (currentModel req) (chat_window m s) m
                   (saveToDB ''user'' (m_content m) (or_null (m_image m)) s) (first_calls m)
            else ollama_handler env (currentModel req) (chat_window m s) m
                   (saveToDB ''user'' (m_content m) (or_null (m_image m)) s) (first_calls m))"
  using assms
  by (auto simp: incoming_def api_chat_def Let_def getGlobalHistoryFromDB_def
      incoming_limit_def routes_to_gemini_def currentModel_def chat_window_def first_calls_def
      split: option.splits)

lemma ollama_failure:
  assumes "incoming req = Some m" and "db_err env = None" and "\<not> routes_to_gemini req"
    and "ollama_failed (ollama env)"
  shows "\<exists>err. api_chat env req s
           = \<lparr>final = saveToDB ''user'' (m_content m) (or_null (m_image m)) s,
              trace = first_calls m @ [OllamaChat (currentModel req) (ollama_request m s),
                                   ResStatus500Send err],
              uncaught = None\<rparr>"
proof (cases "ollama env")
  case (OllamaData d)
  with assms(4) have "d = None" by (cases d) simp_all
  with OllamaData assms(1-3) show ?thesis
    by (simp add: dispatch ollama_handler_def ollama_request_def caught_def)
qed (use assms(1-3) in \<open>simp_all add: dispatch ollama_handler_def ollama_request_def caught_def\<close>)

lemma ollama_success:
  assumes "incoming req = Some m" and "db_err env = None" and "\<not> routes_to_gemini req"
    and "ollama env = OllamaData (Some aiText)"
  shows "api_chat env req s
           = \<lparr>final = saveToDB ''assistant'' aiText None
                        (saveToDB ''user'' (m_content m) (or_null (m_image m)) s),
              trace = first_calls m @ [OllamaChat (currentModel req) (ollama_request m s),
                                   DbInsert ''assistant'' aiText None, ResSend aiText],
              uncaught = None\<rparr>"
  using assms by (simp add: dispatch ollama_handler_def ollama_request_def)

lemma gemini_send_rejects:
  assumes "incoming req = Some m" and "db_err env = None" and "routes_to_gemini req"
    and "gemini env = GeminiSendRejects e"
  shows "api_chat env req s
           = \<lparr>final = saveToDB ''user'' (m_content m) (or_null (m_image m)) s,
              trace = first_calls m @ gemini_calls env req m s @ [ResStatus500Send (BackendFault e)],
              uncaught = None\<rparr>"
  using assms by (simp add: dispatch gemini_handler_def gemini_calls_def caught_def)

lemma gemini_stream_error:
  assumes "incoming req = Some m" and "db_err env = None" and "routes_to_gemini req"
    and "gemini env = GeminiStream chunks (StreamError e)"
  shows "api_chat env req s
           = \<lparr>final = saveToDB ''user'' (m_content m) (or_null (m_image m)) s,
              trace = first_calls m @ gemini_calls env req m s @ ResSetHeader # map ResWrite chunks
                        @ [ResStatus500Send (BackendFault e)],
              uncaught = None\<rparr>"
  using assms
  by (simp add: dispatch gemini_handler_def gemini_calls_def caught_def stream_loop_eq)

lemma gemini_stream_done:
  assumes "incoming req = Some m" and "db_err env = None" and "routes_to_gemini req"
    and "gemini env = GeminiStream chunks StreamDone"
  shows "api_chat env req s
           = \<lparr>final = saveToDB ''assistant'' (Some (concat chunks)) None
                        (saveToDB ''user'' (m_content m) (or_null (m_image m)) s),
              trace = first_calls m @ gemini_calls env req m s @ ResSetHeader # map ResWrite chunks
                        @ [DbInsert ''assistant'' (Some (concat chunks)) None, ResEnd],
              uncaught = None\<rparr>"
  using assms
  by (simp add: dispatch gemini_handler_def gemini_calls_def stream_loop_eq)

subsection \<open>The user turn is saved first\<close>

lemma forwarded_append: "forwarded (xs @ ys) = forwarded xs @ forwarded ys"
  by (induction xs rule: forwarded.induct) simp_all

lemma forwarded_writes: "forwarded (map ResWrite chunks) = chunks"
  by (induction chunks) simp_all

lemma dispatched_shape:
  assumes "incoming req = Some m" and "db_err env = None"
  shows "\<exists>rest more. trace (api_chat env req s) = first_calls m @ rest
           \<and> list_ex is_backend_call rest
           \<and> history (final (api_chat env req s)) = history s @ user_turn s m # more"
proof (cases "routes_to_gemini req")
  case True
  show ?thesis
  proof (cases "gemini env")
    case (GeminiSendRejects e)
    show ?thesis
      by (simp add: gemini_send_rejects [OF assms True GeminiSendRejects] gemini_calls_def
          saveToDB_def user_turn_def)
  next
    case (GeminiStream chunks fin)
    show ?thesis
    proof (cases fin)
      case StreamDone
      with GeminiStream have g: "gemini env = GeminiStream chunks StreamDone" by simp
      show ?thesis
        by (simp add: gemini_stream_done [OF assms True g] gemini_calls_def
            saveToDB_def user_turn_def)
    next
      case (StreamError e)
      with GeminiStream have g: "gemini env = GeminiStream chunks (StreamError e)" by simp
      show ?thesis
        by (simp add: gemini_stream_error [OF assms True g] gemini_calls_def
            saveToDB_def user_turn_def)
    qed
  qed
next
  case False
  show ?thesis
  proof (cases "ollama_failed (ollama env)")
    case True
    from ollama_failure [OF assms False True, of s] obtain err where
      "api_chat env req s
         = \<lparr>final = saveToDB ''user'' (m_content m) (or_null (m_image m)) s,
            trace = first_calls m @ [OllamaChat (currentModel req) (ollama_request m s),
                                     ResStatus500Send err],
            uncaught = None\<rparr>" ..
    then show ?thesis
      by (simp add: saveToDB_def user_turn_def)
  next
    case ok: False
    then obtain aiText where o: "ollama env = OllamaData (Some aiText)"
      by (cases "ollama env" rule: ollama_failed.cases) simp_all
    show ?thesis
      by (simp add: ollama_success [OF assms False o] saveToDB_def user_turn_def)
  qed
qed




subsection \<open>Failure of the backend, and the streamed reply\<close>

lemma failed_outcome:
  assumes "incoming req = Some m" and "db_err env = None" and "backend_failed env req"
  shows "\<exists>calls err. api_chat env req s
           = \<lparr>final = saveToDB ''user'' (m_content m) (or_null (m_image m)) s,
              trace = first_calls m @ calls @ [ResStatus500Send err],
              uncaught = None\<rparr>
           \<and> \<not> list_ex is_assistant_insert calls"
proof (cases "routes_to_gemini req")
  case True
  with assms(3) have "gemini_failed (gemini env)" by (simp add: backend_failed_def)
  then consider e where "gemini env = GeminiSendRejects e"
    | chunks e where "gemini env = GeminiStream chunks (StreamError e)"
    by (cases "gemini env" rule: gemini_failed.cases) simp_all
  then show ?thesis
  proof cases
    case 1
    have "\<not> list_ex is_assistant_insert (gemini_calls env req m s)"
      by (simp add: gemini_calls_def)
    with gemini_send_rejects [OF assms(1,2) True 1, of s] show ?thesis by blast
  next
    case 2
    have "\<not> list_ex is_assistant_insert (gemini_calls env req m s @ ResSetHeader # map ResWrite chunks)"
      by (simp add: gemini_calls_def list_ex_iff image_iff)
    with gemini_stream_error [OF assms(1,2) True 2, of s] show ?thesis
      by (metis append_Cons append_assoc)
  qed
next
  case False
  with assms(3) have "ollama_failed (ollama env)" by (simp add: backend_failed_def)
  from ollama_failure [OF assms(1,2) False this, of s] obtain err where
    "api_chat env req s
       = \<lparr>final = saveToDB ''user'' (m_content m) (or_null (m_image m)) s,
          trace = first_calls m @ [OllamaChat (currentModel req) (ollama_request m s)]
                    @ [ResStatus500Send err],
          uncaught = None\<rparr>" by auto
  moreover have "\<not> list_ex is_assistant_insert [OllamaChat (currentModel req) (ollama_request m s)]"
    by simp
  ultimately show ?thesis by blast
qed

lemma user_insert_not_assistant: "\<not> list_ex is_assistant_insert (first_calls m)"
  by (simp add: first_calls_def)

text \<open>
  Claim C2. When the backend call of the request fails (Ollama: the fetch or the JSON
  parse rejects, or the body carries no \<^verbatim>\<open>message\<close>; Gemini: the send rejects, or the
  stream ends in an error after any number of fragments), the route issues no insert with
  role \<^verbatim>\<open>assistant\<close>, and the table afterwards is the table before plus at most the
  user turn: no row added by the request has role \<^verbatim>\<open>assistant\<close>, so what the stream
  had accumulated is dropped.
\<close>

theorem no_assistant_turn_when_backend_fails:
  assumes "backend_failed env req"
  shows "\<not> list_ex is_assistant_insert (trace (api_chat env req s))
       \<and> final (api_chat env req s)
           = (case incoming req of
                None \<Rightarrow> s
              | Some m \<Rightarrow>
                  (case db_err env of
                     Some e \<Rightarrow> s
                   | None \<Rightarrow> saveToDB ''user'' (m_content m) (or_null (m_image m)) s))
       \<and> list_all (\<lambda>t. t_role t = ''user'')
            (drop (length (history s)) (history (final (api_chat env req s))))"
proof (cases "incoming req")
  case None
  then show ?thesis by (simp add: incoming_None)
next
  case (Some m)
  show ?thesis
  proof (cases "db_err env")
    case (Some e)
    with \<open>incoming req = Some m\<close> show ?thesis by (simp add: store_fault)
  next
    case None
    from failed_outcome [OF \<open>incoming req = Some m\<close> None assms, of s]
    obtain calls err where
      out: "api_chat env req s
              = \<lparr>final = saveToDB ''user'' (m_content m) (or_null (m_image m)) s,
                 trace = first_calls m @ calls @ [ResStatus500Send err],
                 uncaught = None\<rparr>"
      and calls: "\<not> list_ex is_assistant_insert calls" by blast
    from calls have "\<not> list_ex is_assistant_insert (first_calls m @ calls @ [ResStatus500Send err])"
      by (simp add: first_calls_def)
    with out \<open>incoming req = Some m\<close> None show ?thesis
      by (simp add: saveToDB_def)
  qed
qed

theorem no_assistant_turn_when_backend_fails_witness:
  "backend_failed broken_env sample_request
   \<and> \<not> list_ex is_assistant_insert (trace (api_chat broken_env sample_request empty_store))
   \<and> history (final (api_chat broken_env sample_request empty_store))
       = [\<lparr>t_id = 1, t_role = ''user'', t_content = Some ''hej'', t_image = None\<rparr>]"
proof -
  have h: "backend_failed broken_env sample_request"
    by (simp add: backend_failed_def routes_to_gemini_def sample_request_def or_default_def
        js_includes_def sublist_code broken_env_def)
  have i: "incoming sample_request = Some sample_message"
    by (simp add: incoming_def sample_request_def last_element_def)
  from no_assistant_turn_when_backend_fails [OF h, of empty_store]
  have "\<not> list_ex is_assistant_insert (trace (api_chat broken_env sample_request empty_store))"
    and "final (api_chat broken_env sample_request empty_store)
           = (case incoming sample_request of
                None \<Rightarrow> empty_store
              | Some m \<Rightarrow>
                  (case db_err broken_env of
                     Some e \<Rightarrow> empty_store
                   | None \<Rightarrow> saveToDB ''user'' (m_content m) (or_null (m_image m)) empty_store))"
    by blast+
  with h i show ?thesis
    by (simp add: broken_env_def saveToDB_def empty_store_def sample_message_def or_null_def)
qed

text \<open>
  Claim C3. On the streaming route, for a stream that emits the fragments \<open>chunks\<close>: the
  fragments written to the caller are exactly \<open>chunks\<close>, in that order, whether the stream
  then ends or fails; when it ends, the table afterwards is the old rows, the user turn
  and one assistant row whose content is the concatenation of the written fragments; and
  any assistant insert the route issues carries that concatenation.
\<close>

theorem streamed_fragments_forwarded_and_persisted:
  assumes "incoming req = Some m" and "db_err env = None" and "routes_to_gemini req"
    and "gemini env = GeminiStream chunks fin"
  shows "forwarded (trace (api_chat env req s)) = chunks
       \<and> (fin = StreamDone \<longrightarrow>
            history (final (api_chat env req s))
              = history s
                @ [user_turn s m,
                   \<lparr>t_id = seq s + 2, t_role = ''assistant'',
                    t_content = Some (concat (forwarded (trace (api_chat env req s)))),
                    t_image = None\<rparr>])
       \<and> (\<forall>c i. DbInsert ''assistant'' c i \<in> set (trace (api_chat env req s)) \<longrightarrow>
            c = Some (concat (forwarded (trace (api_chat env req s)))))"
proof (cases fin)
  case StreamDone
  with assms(4) have g: "gemini env = GeminiStream chunks StreamDone" by simp
  have fw: "forwarded (trace (api_chat env req s)) = chunks"
    by (simp add: gemini_stream_done [OF assms(1-3) g] forwarded_append forwarded_writes
        first_calls_def gemini_calls_def)
  have st: "history (final (api_chat env req s))
              = history s @ [user_turn s m,
                   \<lparr>t_id = seq s + 2, t_role = ''assistant'', t_content = Some (concat chunks),
                    t_image = None\<rparr>]"
    by (simp add: gemini_stream_done [OF assms(1-3) g] saveToDB_def user_turn_def)
  have ins: "\<forall>c i. DbInsert ''assistant'' c i \<in> set (trace (api_chat env req s)) \<longrightarrow>
            c = Some (concat chunks)"
    by (auto simp: gemini_stream_done [OF assms(1-3) g] first_calls_def gemini_calls_def)
  from fw st ins show ?thesis by simp
next
  case (StreamError e)
  with assms(4) have g: "gemini env = GeminiStream chunks (StreamError e)" by simp
  have fw: "forwarded (trace (api_chat env req s)) = chunks"
    by (simp add: gemini_stream_error [OF assms(1-3) g] forwarded_append forwarded_writes
        first_calls_def gemini_calls_def)
  have ins: "\<forall>c i. DbInsert ''assistant'' c i \<notin> set (trace (api_chat env req s))"
    by (auto simp: gemini_stream_error [OF assms(1-3) g] first_calls_def gemini_calls_def)
  from fw ins StreamError show ?thesis by simp
qed

theorem streamed_fragments_forwarded_and_persisted_witness:
  "incoming sample_request = Some sample_message \<and> db_err working_env = None
   \<and> routes_to_gemini sample_request
   \<and> gemini working_env = GeminiStream [''hej'', '' du''] StreamDone
   \<and> forwarded (trace (api_chat working_env sample_request empty_store)) = [''hej'', '' du'']
   \<and> map t_content (history (final (api_chat working_env sample_request empty_store)))
       = [Some ''hej'', Some ''hej du'']"
proof -
  have i: "incoming sample_request = Some sample_message"
    by (simp add: incoming_def sample_request_def last_element_def)
  have d: "db_err working_env = None"
    by (simp add: working_env_def)
  have r: "routes_to_gemini sample_request"
    by (simp add: routes_to_gemini_def sample_request_def or_default_def js_includes_def
        sublist_code)
  have g: "gemini working_env = GeminiStream [''hej'', '' du''] StreamDone"
    by (simp add: working_env_def)
  from streamed_fragments_forwarded_and_persisted [OF i d r g, of empty_store]
  have fw: "forwarded (trace (api_chat working_env sample_request empty_store)) = [''hej'', '' du'']"
    and st: "history (final (api_chat working_env sample_request empty_store))
             = history empty_store
                @ [user_turn empty_store sample_message,
                   \<lparr>t_id = seq empty_store + 2, t_role = ''assistant'',
                    t_content = Some (concat (forwarded (trace (api_chat working_env sample_request empty_store)))),
                    t_image = None\<rparr>]"
    by simp_all
  from st [unfolded fw]
  have "map t_content (history (final (api_chat working_env sample_request empty_store)))
       = [Some ''hej'', Some ''hej du'']"
    by (simp add: empty_store_def user_turn_def sample_message_def)
  with i d r g fw show ?thesis by simp
qed

subsection \<open>The size of the context window\<close>


lemma set_select_recent: "set (select_recent n s) \<subseteq> set (history s)"
proof -
  have "set (take n (rev (sort_key t_id (history s)))) \<subseteq> set (rev (sort_key t_id (history s)))"
    by (rule set_take_subset)
  then show ?thesis
    by (simp add: select_recent_def select_desc_limit_def)
qed




subsection \<open>The window is read first; blank texts\<close>

lemma dispatched_calls:
  assumes "incoming req = Some m" and "db_err env = None"
  shows "\<exists>rest. trace (api_chat env req s)
           = first_calls m
             @ (if routes_to_gemini req then gemini_calls env req m s
                else [OllamaChat (currentModel req) (ollama_request m s)])
             @ rest"
proof (cases "routes_to_gemini req")
  case True
  show ?thesis
  proof (cases "gemini env")
    case (GeminiSendRejects e)
    show ?thesis
      by (simp add: gemini_send_rejects [OF assms True GeminiSendRejects] True)
  next
    case (GeminiStream chunks fin)
    show ?thesis
    proof (cases fin)
      case StreamDone
      with GeminiStream have g: "gemini env = GeminiStream chunks StreamDone" by simp
      show ?thesis
        by (simp add: gemini_stream_done [OF assms True g] True)
    next
      case (StreamError e)
      with GeminiStream have g: "gemini env = GeminiStream chunks (StreamError e)" by simp
      show ?thesis
        by (simp add: gemini_stream_error [OF assms True g] True)
    qed
  qed
next
  case False
  show ?thesis
  proof (cases "ollama_failed (ollama env)")
    case True
    from ollama_failure [OF assms False True, of s] False show ?thesis
      by auto
  next
    case ok: False
    then obtain aiText where o: "ollama env = OllamaData (Some aiText)"
      by (cases "ollama env" rule: ollama_failed.cases) simp_all
    show ?thesis
      by (simp add: ollama_success [OF assms False o] False)
  qed
qed

lemma user_turn_is_new:
  assumes "wf_store s"
  shows "list_all (\<lambda>t. t_id t < t_id (user_turn s m)) (select_recent n s)"
proof -
  from assms have "\<forall>t\<in>set (history s). t_id t \<le> seq s"
    by (simp add: wf_store_def list_all_iff)
  with set_select_recent [of n s] have "\<forall>t\<in>set (select_recent n s). t_id t \<le> seq s"
    by blast
  then show ?thesis
    by (simp add: list_all_iff user_turn_def less_Suc_eq_le)
qed

text \<open>
  Claim C6. For a request taken alone, with an incoming message and a history read that
  succeeds: the route first reads the history, then inserts the user turn, then calls the
  backend, and the history it hands to the backend (Gemini: the \<^verbatim>\<open>history\<close> of
  \<^verbatim>\<open>startChat\<close>; Ollama: the messages before the last one) is the read of the table as it
  was before the request. Every row of that window is a row of the old table; on a
  well-formed table every row of the window has an id below the id the user turn gets, so
  the user turn is not in the window.
\<close>

theorem window_read_before_user_turn_saved:
  assumes "incoming req = Some m" and "db_err env = None"
  shows "(\<exists>rest. trace (api_chat env req s)
            = DbAll (incoming_limit m)
              # DbInsert ''user'' (m_content m) (or_null (m_image m))
              # (if routes_to_gemini req
                 then GeminiStartChat (currentModel req) (persona env)
                        (map gemini_of_history (map project (select_recent (incoming_limit m) s)))
                 else OllamaChat (currentModel req)
                        (map ollama_of_history (map project (select_recent (incoming_limit m) s))
                         @ [\<lparr>o_role = ''user'', o_content = m_content m,
                             o_images = images_field (m_image m)\<rparr>]))
              # rest)
       \<and> set (select_recent (incoming_limit m) s) \<subseteq> set (history s)
       \<and> (wf_store s \<longrightarrow>
            list_all (\<lambda>t. t_id t < t_id (user_turn s m)) (select_recent (incoming_limit m) s)
            \<and> user_turn s m \<notin> set (select_recent (incoming_limit m) s))"
proof -
  from dispatched_calls [OF assms, of s]
  have a: "\<exists>rest. trace (api_chat env req s)
            = DbAll (incoming_limit m)
              # DbInsert ''user'' (m_content m) (or_null (m_image m))
              # (if routes_to_gemini req
                 then GeminiStartChat (currentModel req) (persona env)
                        (map gemini_of_history (map project (select_recent (incoming_limit m) s)))
                 else OllamaChat (currentModel req)
                        (map ollama_of_history (map project (select_recent (incoming_limit m) s))
                         @ [\<lparr>o_role = ''user'', o_content = m_content m,
                             o_images = images_field (m_image m)\<rparr>]))
              # rest"
    by (auto simp: first_calls_def gemini_calls_def ollama_request_def chat_window_def)
  have c: "wf_store s \<longrightarrow>
            list_all (\<lambda>t. t_id t < t_id (user_turn s m)) (select_recent (incoming_limit m) s)
            \<and> user_turn s m \<notin> set (select_recent (incoming_limit m) s)"
  proof
    assume "wf_store s"
    from user_turn_is_new [OF this, of m "incoming_limit m"]
    show "list_all (\<lambda>t. t_id t < t_id (user_turn s m)) (select_recent (incoming_limit m) s)
            \<and> user_turn s m \<notin> set (select_recent (incoming_limit m) s)"
      by (auto simp: list_all_iff)
  qed
  from a set_select_recent [of "incoming_limit m" s] c show ?thesis by blast
qed

theorem window_read_before_user_turn_saved_witness:
  "incoming local_request = Some sample_message \<and> db_err working_env = None
   \<and> wf_store empty_store
   \<and> (\<exists>rest. trace (api_chat working_env local_request empty_store)
         = DbAll 60 # DbInsert ''user'' (Some ''hej'') None
           # OllamaChat ''llama3'' [\<lparr>o_role = ''user'', o_content = Some ''hej'', o_images = None\<rparr>]
           # rest)"
proof -
  have i: "incoming local_request = Some sample_message"
    by (simp add: incoming_def local_request_def last_element_def)
  have d: "db_err working_env = None"
    by (simp add: working_env_def)
  have w: "wf_store empty_store"
    by (simp add: wf_store_def empty_store_def)
  have r: "\<not> routes_to_gemini local_request"
    by (simp add: routes_to_gemini_def local_request_def or_default_def js_includes_def
        sublist_code)
  have l: "incoming_limit sample_message = 60"
    by (simp add: incoming_limit_def sample_message_def or_default_def toLowerCase_def
        lower_char_def isSummarize_def js_includes_def sublist_code history_limit_def)
  have e: "select_recent 60 empty_store = []"
    by (simp add: select_recent_def select_desc_limit_def empty_store_def)
  have c: "currentModel local_request = ''llama3''"
    by (simp add: currentModel_def local_request_def or_default_def)
  from window_read_before_user_turn_saved [OF i d, of empty_store]
  have "\<exists>rest. trace (api_chat working_env local_request empty_store)
            = DbAll (incoming_limit sample_message)
              # DbInsert ''user'' (m_content sample_message) (or_null (m_image sample_message))
              # (if routes_to_gemini local_request
                 then GeminiStartChat (currentModel local_request) (persona working_env)
                        (map gemini_of_history (map project (select_recent (incoming_limit sample_message) empty_store)))
                 else OllamaChat (currentModel local_request)
                        (map ollama_of_history (map project (select_recent (incoming_limit sample_message) empty_store))
                         @ [\<lparr>o_role = ''user'', o_content = m_content sample_message,
                             o_images = images_field (m_image sample_message)\<rparr>]))
              # rest"
    by (rule conjunct1)
  then have "\<exists>rest. trace (api_chat working_env local_request empty_store)
         = DbAll 60 # DbInsert ''user'' (Some ''hej'') None
           # OllamaChat ''llama3'' [\<lparr>o_role = ''user'', o_content = Some ''hej'', o_images = None\<rparr>]
           # rest"
    by (simp only: r l e c if_False list.map append_Nil)
       (simp add: sample_message_def or_null_def images_field_def)
  with i d w show ?thesis by simp
qed



subsection \<open>The model catalogue never fails\<close>

lemma cloud_models_append: "cloud_models env xs = xs @ cloud_models env []"
  by (simp add: cloud_models_def split: sum.splits)

lemma local_models_append: "local_models env xs = xs @ local_models env []"
  by (simp add: local_models_def split: sum.splits option.splits)

text \<open>
  Claim C8. The listing route always answers with status 200 and never throws: its answer
  is the entries of the cloud source followed by the entries of the local source. A source
  that is unavailable (no key, a rejected fetch or parse, a body without \<^verbatim>\<open>models\<close>, an
  entry whose property read throws, a local response that is not ok) contributes no entry
  and the other source is still listed; a source that is available contributes the
  entries of its listing; with both unavailable the answer is the empty array.
\<close>

theorem models_listing_never_fails:
  "api_models env = Inr (200, cloud_models env [] @ local_models env [])
   \<and> (cloud_unavailable env \<longrightarrow> cloud_models env [] = [])
   \<and> (local_unavailable env \<longrightarrow> local_models env [] = [])
   \<and> (\<not> cloud_unavailable env \<longrightarrow> cloud_listing (cloud env) = Inr (cloud_models env []))
   \<and> (\<not> local_unavailable env \<longrightarrow>
        local_listing (local_source env) = Inr (Some (local_models env [])))
   \<and> (cloud_unavailable env \<and> local_unavailable env \<longrightarrow> api_models env = Inr (200, []))"
proof -
  have a: "api_models env = Inr (200, cloud_models env [] @ local_models env [])"
    using local_models_append [of env "cloud_models env []"]
    by (simp add: api_models_def)
  have b: "cloud_unavailable env \<longrightarrow> cloud_models env [] = []"
    by (auto simp: cloud_unavailable_def cloud_models_def split: sum.splits)
  have c: "local_unavailable env \<longrightarrow> local_models env [] = []"
    by (auto simp: local_unavailable_def local_models_def split: sum.splits)
  have d: "\<not> cloud_unavailable env \<longrightarrow> cloud_listing (cloud env) = Inr (cloud_models env [])"
    by (auto simp: cloud_unavailable_def cloud_models_def split: sum.splits)
  have e: "\<not> local_unavailable env \<longrightarrow>
        local_listing (local_source env) = Inr (Some (local_models env []))"
    by (auto simp: local_unavailable_def local_models_def split: sum.splits option.splits)
  from a b c have f: "cloud_unavailable env \<and> local_unavailable env \<longrightarrow> api_models env = Inr (200, [])"
    by simp
  from a b c d e f show ?thesis by blast
qed

theorem models_listing_never_fails_witness:
  "cloud_unavailable offline_models_env \<and> local_unavailable offline_models_env
   \<and> api_models offline_models_env = Inr (200, [])
   \<and> \<not> cloud_unavailable online_models_env \<and> \<not> local_unavailable online_models_env
   \<and> api_models online_models_env
       = Inr (200, [\<lparr>e_id = Some ''gemini-pro'', e_name = cloud_label @ ''Gemini Pro''\<rparr>,
                    \<lparr>e_id = Some ''llama3'', e_name = local_label @ ''llama3''\<rparr>])"
proof -
  have c0: "cloud_unavailable offline_models_env"
    by (simp add: cloud_unavailable_def offline_models_env_def truthy_def)
  have l0: "local_unavailable offline_models_env"
    by (simp add: local_unavailable_def offline_models_env_def local_listing_def)
  from models_listing_never_fails [of offline_models_env] c0 l0
  have off: "api_models offline_models_env = Inr (200, [])"
    by blast
  have cl: "cloud_listing (cloud online_models_env)
              = Inr [\<lparr>e_id = Some ''gemini-pro'', e_name = cloud_label @ ''Gemini Pro''\<rparr>]"
    by (simp add: online_models_env_def cloud_listing_def cloud_keep_def cloud_entry_def
        js_includes_def sublist_code template_def)
  have ll: "local_listing (local_source online_models_env)
              = Inr (Some [\<lparr>e_id = Some ''llama3'', e_name = local_label @ ''llama3''\<rparr>])"
    by (simp add: online_models_env_def local_listing_def local_entry_def template_def)
  have c1: "\<not> cloud_unavailable online_models_env"
    by (simp add: cloud_unavailable_def cl) (simp add: online_models_env_def truthy_def)
  have l1: "\<not> local_unavailable online_models_env"
    by (simp add: local_unavailable_def ll)
  from models_listing_never_fails [of online_models_env] c1 l1
  have "api_models online_models_env
          = Inr (200, cloud_models online_models_env [] @ local_models online_models_env [])"
    and "cloud_listing (cloud online_models_env) = Inr (cloud_models online_models_env [])"
    and "local_listing (local_source online_models_env)
           = Inr (Some (local_models online_models_env []))"
    by blast+
  with cl ll have on: "api_models online_models_env
       = Inr (200, [\<lparr>e_id = Some ''gemini-pro'', e_name = cloud_label @ ''Gemini Pro''\<rparr>,
                    \<lparr>e_id = Some ''llama3'', e_name = local_label @ ''llama3''\<rparr>])"
    by simp
  from c0 l0 off c1 l1 on show ?thesis by simp
qed

subsection \<open>Malformed requests and the choice of the backend\<close>





text \<open>
  Claim C7, as stated, fails: the identifier \<^verbatim>\<open>not-a-model\<close> belongs to no family, yet the
  request is not rejected. It is sent to Ollama together with its image, and the reply is
  stored and returned with status 200.
\<close>

theorem unknown_model_counterexample:
  "trace (api_chat working_env unknown_request empty_store)
     = [DbAll 60,
        DbInsert ''user'' (Some []) (Some ''QUJD''),
        OllamaChat ''not-a-model''
          [\<lparr>o_role = ''user'', o_content = Some [], o_images = Some [''QUJD'']\<rparr>],
        DbInsert ''assistant'' (Some ''hej du'') None,
        ResSend (Some ''hej du'')]
   \<and> uncaught (api_chat working_env unknown_request empty_store) = None"
  by (simp add: api_chat_def unknown_request_def blank_message_def working_env_def
      last_element_def or_default_def or_null_def toLowerCase_def isSummarize_def
      js_includes_def sublist_code history_limit_def getGlobalHistoryFromDB_def
      select_recent_def select_desc_limit_def empty_store_def ollama_handler_def
      images_field_def Let_def)

text \<open>
  Claim C7, amended. The backend is selected by a substring test on the model identifier,
  where an absent or empty identifier stands for \<^verbatim>\<open>gemini-1.5-flash\<close>: an identifier that
  contains \<^verbatim>\<open>gemini\<close> selects the streaming variant, and every other identifier selects
  the batch variant. Every dispatched request calls exactly one of the two backends with
  that identifier; no identifier is rejected.
\<close>

theorem backend_selected_by_substring:
  assumes "incoming req = Some m" and "db_err env = None"
  shows "currentModel req
           = (case model req of None \<Rightarrow> ''gemini-1.5-flash''
              | Some x \<Rightarrow> if x = [] then ''gemini-1.5-flash'' else x)
       \<and> (sublist ''gemini'' (currentModel req) \<longrightarrow>
            (\<exists>rest. trace (api_chat env req s)
               = first_calls m
                 @ GeminiStartChat (currentModel req) (persona env)
                     (map gemini_of_history (chat_window m s))
                 # rest)
            \<and> \<not> list_ex is_ollama_call (trace (api_chat env req s)))
       \<and> (\<not> sublist ''gemini'' (currentModel req) \<longrightarrow>
            (\<exists>rest. trace (api_chat env req s)
               = first_calls m @ OllamaChat (currentModel req) (ollama_request m s) # rest)
            \<and> \<not> list_ex is_gemini_call (trace (api_chat env req s)))
       \<and> list_ex is_backend_call (trace (api_chat env req s))"
proof -
  have r: "routes_to_gemini req \<longleftrightarrow> sublist ''gemini'' (currentModel req)"
    by (simp add: routes_to_gemini_def currentModel_def js_includes_def)
  have a: "currentModel req
           = (case model req of None \<Rightarrow> ''gemini-1.5-flash''
              | Some x \<Rightarrow> if x = [] then ''gemini-1.5-flash'' else x)"
    by (simp add: currentModel_def or_default_def)
  from dispatched_shape [OF assms, of s]
  have d: "list_ex is_backend_call (trace (api_chat env req s))"
    by (auto simp: list_ex_iff)
  have g: "sublist ''gemini'' (currentModel req) \<longrightarrow>
            (\<exists>rest. trace (api_chat env req s)
               = first_calls m
                 @ GeminiStartChat (currentModel req) (persona env)
                     (map gemini_of_history (chat_window m s))
                 # rest)
            \<and> \<not> list_ex is_ollama_call (trace (api_chat env req s))"
  proof
    assume "sublist ''gemini'' (currentModel req)"
    with r have rt: "routes_to_gemini req" by simp
    from dispatched_calls [OF assms, of s] rt
    have 1: "\<exists>rest. trace (api_chat env req s)
               = first_calls m
                 @ GeminiStartChat (currentModel req) (persona env)
                     (map gemini_of_history (chat_window m s))
                 # rest"
      by (auto simp: gemini_calls_def)
    have 2: "\<not> list_ex is_ollama_call (trace (api_chat env req s))"
    proof (cases "gemini env")
      case (GeminiSendRejects e)
      show ?thesis
        by (simp add: gemini_send_rejects [OF assms rt GeminiSendRejects] first_calls_def
            gemini_calls_def)
    next
      case (GeminiStream chunks fin)
      show ?thesis
      proof (cases fin)
        case StreamDone
        with GeminiStream have q: "gemini env = GeminiStream chunks StreamDone" by simp
        show ?thesis
          by (auto simp: gemini_stream_done [OF assms rt q] first_calls_def gemini_calls_def list_ex_iff)
      next
        case (StreamError e)
        with GeminiStream have q: "gemini env = GeminiStream chunks (StreamError e)" by simp
        show ?thesis
          by (auto simp: gemini_stream_error [OF assms rt q] first_calls_def gemini_calls_def list_ex_iff)
      qed
    qed
    from 1 2 show "(\<exists>rest. trace (api_chat env req s)
               = first_calls m
                 @ GeminiStartChat (currentModel req) (persona env)
                     (map gemini_of_history (chat_window m s))
                 # rest)
            \<and> \<not> list_ex is_ollama_call (trace (api_chat env req s))" by simp
  qed
  have o: "\<not> sublist ''gemini'' (currentModel req) \<longrightarrow>
            (\<exists>rest. trace (api_chat env req s)
               = first_calls m @ OllamaChat (currentModel req) (ollama_request m s) # rest)
            \<and> \<not> list_ex is_gemini_call (trace (api_chat env req s))"
  proof
    assume "\<not> sublist ''gemini'' (currentModel req)"
    with r have rt: "\<not> routes_to_gemini req" by simp
    from dispatched_calls [OF assms, of s] rt
    have 1: "\<exists>rest. trace (api_chat env req s)
               = first_calls m @ OllamaChat (currentModel req) (ollama_request m s) # rest"
      by auto
    have 2: "\<not> list_ex is_gemini_call (trace (api_chat env req s))"
    proof (cases "ollama_failed (ollama env)")
      case True
      from ollama_failure [OF assms rt True, of s] show ?thesis
        by (auto simp: first_calls_def)
    next
      case False
      then obtain aiText where q: "ollama env = OllamaData (Some aiText)"
        by (cases "ollama env" rule: ollama_failed.cases) simp_all
      show ?thesis
        by (simp add: ollama_success [OF assms rt q] first_calls_def)
    qed
    from 1 2 show "(\<exists>rest. trace (api_chat env req s)
               = first_calls m @ OllamaChat (currentModel req) (ollama_request m s) # rest)
            \<and> \<not> list_ex is_gemini_call (trace (api_chat env req s))" by simp
  qed
  from a g o d show ?thesis by blast
qed

theorem backend_selected_by_substring_witness:
  "incoming sample_request = Some sample_message \<and> db_err working_env = None
   \<and> currentModel sample_request = ''gemini-1.5-flash''
   \<and> \<not> list_ex is_ollama_call (trace (api_chat working_env sample_request empty_store))
   \<and> incoming local_request = Some sample_message
   \<and> currentModel local_request = ''llama3''
   \<and> \<not> list_ex is_gemini_call (trace (api_chat working_env local_request empty_store))"
proof -
  have i: "incoming sample_request = Some sample_message"
    by (simp add: incoming_def sample_request_def last_element_def)
  have j: "incoming local_request = Some sample_message"
    by (simp add: incoming_def local_request_def last_element_def)
  have d: "db_err working_env = None"
    by (simp add: working_env_def)
  have c1: "currentModel sample_request = ''gemini-1.5-flash''"
    by (simp add: currentModel_def sample_request_def or_default_def)
  have c2: "currentModel local_request = ''llama3''"
    by (simp add: currentModel_def local_request_def or_default_def)
  have s1: "sublist ''gemini'' ''gemini-1.5-flash''"
    by (simp add: sublist_code)
  have s2: "\<not> sublist ''gemini'' ''llama3''"
    by (simp add: sublist_code)
  from backend_selected_by_substring [OF i d, of empty_store] s1
  have g: "\<not> list_ex is_ollama_call (trace (api_chat working_env sample_request empty_store))"
    unfolding c1 by blast
  from backend_selected_by_substring [OF j d, of empty_store] s2
  have o: "\<not> list_ex is_gemini_call (trace (api_chat working_env local_request empty_store))"
    unfolding c2 by blast
  from i j d c1 c2 g o show ?thesis by simp
qed

end
